theory Spec2Isabelle
  imports Main
begin

section \<open>The channel invite modal\<close>

text \<open>
  A shallow embedding of \<^verbatim>\<open>ChannelInviteModal\<close>
  (\<^verbatim>\<open>components/channel_invite_modal/channel_invite_modal.tsx\<close>): the option list
  \<^verbatim>\<open>getOptions\<close>, the selection handlers \<^verbatim>\<open>addValue\<close> and
  \<^verbatim>\<open>handleSubmit\<close>, and the debounced \<^verbatim>\<open>search\<close>.
\<close>

subsection \<open>Data\<close>

text \<open>
  The component compares options as JavaScript objects: \<^verbatim>\<open>indexOf\<close> and
  \<^verbatim>\<open>new Set\<close> use reference equality. Every modelled object therefore carries
  the reference under which it lives (\<open>user_ref\<close>, \<open>group_ref\<close>); two values of the
  model are the same object exactly when they are equal, and two objects with the same
  fields but different references are different options. The field \<^verbatim>\<open>id\<close> of the
  source is \<open>user_id\<close> and \<open>group_id\<close> here.
\<close>

record UserProfile =
  user_ref :: nat
  user_id :: string
  username :: string
  delete_at :: int
  roles :: string

record Group =
  group_ref :: nat
  group_id :: string
  name :: string
  member_ids :: "string list"

text \<open>
  \<^verbatim>\<open>UserProfileValue | GroupValue\<close>; the source tells the two apart with
  \<^verbatim>\<open>'username' in value\<close>.
\<close>

datatype OptionValue = UserProfileValue UserProfile | GroupValue Group

fun value_id :: "OptionValue \<Rightarrow> string" where
  "value_id (UserProfileValue u) = user_id u"
| "value_id (GroupValue g) = group_id g"

record TeamMembership =
  member_team_id :: string
  member_user_id :: string

record Channel =
  channel_id :: string
  team_id :: string
  group_constrained :: bool

text \<open>
  The props the modelled methods read. A \<^verbatim>\<open>Record<string, UserProfileValue>\<close> is
  an association list in insertion order; \<^verbatim>\<open>excludeUsers\<close> and
  \<^verbatim>\<open>includeUsers\<close> are optional, and the source tests them for presence.
  \<open>onAddCallback\<close> records whether the callback was passed.
\<close>

record Props =
  profilesNotInCurrentChannel :: "UserProfile list"
  profilesInCurrentChannel :: "UserProfile list"
  profilesNotInCurrentTeam :: "UserProfile list"
  profilesFromRecentDMs :: "UserProfile list"
  membersInTeam :: "(string \<rightharpoonup> TeamMembership) option"
  channel :: Channel
  skipCommit :: bool
  onAddCallback :: bool
  excludeUsers :: "(string \<times> UserProfile) list option"
  includeUsers :: "(string \<times> UserProfile) list option"
  groups_prop :: "Group list"

text \<open>
  The component state. \<open>values_st\<close>, \<open>term_st\<close> and \<open>show_st\<close> are the fields
  \<^verbatim>\<open>values\<close>, \<^verbatim>\<open>term\<close> and \<^verbatim>\<open>show\<close> of the source.
\<close>

record State =
  values_st :: "UserProfile list"
  optionValues :: "OptionValue list"
  usersNotInTeam :: "UserProfile list"
  guestsNotInTeam :: "UserProfile list"
  term_st :: string
  show_st :: bool
  saving :: bool
  loadingUsers :: bool
  inviteError :: "string option"

text \<open>
  What the component imports from modules outside these sources, taken as parameters:
  the term predicates behind \<^verbatim>\<open>filterProfilesStartingWithTerm\<close> and
  \<^verbatim>\<open>filterGroupsMatchingTerm\<close>, the comparator \<^verbatim>\<open>sortUsersAndGroups\<close>,
  \<^verbatim>\<open>isGuest\<close>, and \<^verbatim>\<open>Constants.SEARCH_TIMEOUT_MILLISECONDS\<close>.
\<close>

record Imports =
  profileStartsWithTerm :: "UserProfile \<Rightarrow> string \<Rightarrow> bool"
  groupMatchesTerm :: "Group \<Rightarrow> string \<Rightarrow> bool"
  sortUsersAndGroups :: "OptionValue \<Rightarrow> OptionValue \<Rightarrow> int"
  isGuest :: "string \<Rightarrow> bool"
  SEARCH_TIMEOUT_MILLISECONDS :: nat

definition USERS_PER_PAGE :: nat where
  "USERS_PER_PAGE = 50"

definition USERS_FROM_DMS :: nat where
  "USERS_FROM_DMS = 10"

definition MAX_USERS :: nat where
  "MAX_USERS = 25"

subsection \<open>JavaScript built-ins\<close>

text \<open>
  A \<^verbatim>\<open>Set\<close> keeps its elements in insertion order and ignores an element it
  already has: it is the list of its elements. \<^verbatim>\<open>new Set(iterable)\<close> adds the
  elements one by one, \<^verbatim>\<open>Array.from(set)\<close> reads the list back.
\<close>

definition Set_add :: "'a list \<Rightarrow> 'a \<Rightarrow> 'a list" where
  "Set_add s x = (if x \<in> set s then s else s @ [x])"

definition new_Set :: "'a list \<Rightarrow> 'a list" where
  "new_Set xs = foldl Set_add [] xs"

definition Set_has :: "'a list \<Rightarrow> 'a \<Rightarrow> bool" where
  "Set_has s x = (x \<in> set s)"

definition Array_from :: "'a list \<Rightarrow> 'a list" where
  "Array_from s = s"

text \<open>
  The \<^verbatim>\<open>Set\<close> constructor reads its first argument only. Iterating a string
  yields its characters, each as a string of length one (the ids are ASCII).
\<close>

datatype SetArg = StringArg string | ArrayArg "string list"

fun new_Set_args :: "SetArg list \<Rightarrow> string list" where
  "new_Set_args [] = new_Set []"
| "new_Set_args (StringArg s # rest) = new_Set (map (\<lambda>c. [c]) s)"
| "new_Set_args (ArrayArg xs # rest) = new_Set xs"

definition Object_values :: "(string \<times> 'a) list \<Rightarrow> 'a list" where
  "Object_values obj = map snd obj"

text \<open>
  \<^verbatim>\<open>Array.prototype.sort\<close> with a comparator is stable: an element goes before
  the later elements it does not compare greater than.
\<close>

fun sort_insert :: "('a \<Rightarrow> 'a \<Rightarrow> int) \<Rightarrow> 'a \<Rightarrow> 'a list \<Rightarrow> 'a list" where
  "sort_insert cmp x [] = [x]"
| "sort_insert cmp x (y # ys) =
     (if cmp x y \<le> 0 then x # y # ys else y # sort_insert cmp x ys)"

definition Array_sort :: "('a \<Rightarrow> 'a \<Rightarrow> int) \<Rightarrow> 'a list \<Rightarrow> 'a list" where
  "Array_sort cmp xs = foldr (sort_insert cmp) xs []"

subsection \<open>The option list\<close>

text \<open>
  Modelled from the spec: \<^verbatim>\<open>filterProfilesStartingWithTerm\<close> of
  \<^verbatim>\<open>mattermost-redux/utils/user_utils\<close> is not among the sources. It keeps, in
  order, the profiles that match the term; the match itself is a parameter.
\<close>

definition filterProfilesStartingWithTerm ::
  "Imports \<Rightarrow> UserProfile list \<Rightarrow> string \<Rightarrow> UserProfile list" where
  "filterProfilesStartingWithTerm imp users t =
     filter (\<lambda>user. profileStartsWithTerm imp user t) users"

text \<open>
  Modelled from the spec: \<^verbatim>\<open>filterGroupsMatchingTerm\<close> of
  \<^verbatim>\<open>mattermost-redux/utils/group_utils\<close> is not among the sources. It keeps, in
  order, the groups that match the term; the match itself is a parameter.
\<close>

definition filterGroupsMatchingTerm ::
  "Imports \<Rightarrow> Group list \<Rightarrow> string \<Rightarrow> Group list" where
  "filterGroupsMatchingTerm imp gs t = filter (\<lambda>g. groupMatchesTerm imp g t) gs"

definition filterOutDeletedAndExcludedAndNotInTeamUsers ::
  "UserProfile list \<Rightarrow> string list \<Rightarrow> UserProfile list" where
  "filterOutDeletedAndExcludedAndNotInTeamUsers users excludeUserIds =
     filter (\<lambda>user. delete_at user = 0 \<and> \<not> Set_has excludeUserIds (user_id user)) users"

text \<open>The set \<^verbatim>\<open>excludedAndNotInTeamUserIds\<close> that \<^verbatim>\<open>getOptions\<close> builds first.\<close>

definition excludedAndNotInTeamUserIds :: "Props \<Rightarrow> string list" where
  "excludedAndNotInTeamUserIds p =
     (case excludeUsers p of
        Some ex \<Rightarrow>
          new_Set_args
            (map (\<lambda>user. StringArg (user_id user)) (profilesNotInCurrentTeam p)
               @ [ArrayArg (map user_id (Object_values ex))])
      | None \<Rightarrow> new_Set (map user_id (profilesNotInCurrentTeam p)))"

text \<open>The local \<^verbatim>\<open>users\<close> of \<^verbatim>\<open>getOptions\<close>, after the include step.\<close>

definition users_opt :: "Imports \<Rightarrow> Props \<Rightarrow> State \<Rightarrow> OptionValue list" where
  "users_opt imp p s =
     (let users = map UserProfileValue
            (filterOutDeletedAndExcludedAndNotInTeamUsers
               (filterProfilesStartingWithTerm imp
                  (profilesNotInCurrentChannel p @ profilesInCurrentChannel p) (term_st s))
               (excludedAndNotInTeamUserIds p))
      in case includeUsers p of
           Some inc \<Rightarrow> users @ map UserProfileValue (Object_values inc)
         | None \<Rightarrow> users)"

text \<open>The local \<^verbatim>\<open>dmUsers\<close>.\<close>

definition dmUsers :: "Imports \<Rightarrow> Props \<Rightarrow> State \<Rightarrow> OptionValue list" where
  "dmUsers imp p s =
     map UserProfileValue
       (take USERS_FROM_DMS
          (filterOutDeletedAndExcludedAndNotInTeamUsers
             (filterProfilesStartingWithTerm imp (profilesFromRecentDMs p) (term_st s))
             (excludedAndNotInTeamUserIds p)))"

text \<open>The local \<^verbatim>\<open>groupsAndUsers\<close>.\<close>

definition groupsAndUsers :: "Imports \<Rightarrow> Props \<Rightarrow> State \<Rightarrow> OptionValue list" where
  "groupsAndUsers imp p s =
     Array_sort (sortUsersAndGroups imp)
       (map GroupValue (filterGroupsMatchingTerm imp (groups_prop p) (term_st s))
          @ users_opt imp p s)"

text \<open>
  The local \<^verbatim>\<open>optionValues\<close> as first assigned, before the \<^verbatim>\<open>Set\<close> round
  trip: the value that \<^verbatim>\<open>getOptions\<close> binds below.
\<close>

definition optionValues_sliced :: "Imports \<Rightarrow> Props \<Rightarrow> State \<Rightarrow> OptionValue list" where
  "optionValues_sliced imp p s = take MAX_USERS (dmUsers imp p s @ groupsAndUsers imp p s)"

definition getOptions :: "Imports \<Rightarrow> Props \<Rightarrow> State \<Rightarrow> OptionValue list" where
  "getOptions imp p s =
     (let optionValues = take MAX_USERS (dmUsers imp p s @ groupsAndUsers imp p s)
      in Array_from (new_Set optionValues))"

text \<open>
  The exclusion set as the specification words it: the ids of
  \<^verbatim>\<open>profilesNotInCurrentTeam\<close> together with the ids of the explicit
  \<^verbatim>\<open>excludeUsers\<close> map (none when the map is absent).
\<close>

definition excludeUsers_values :: "Props \<Rightarrow> UserProfile list" where
  "excludeUsers_values p = (case excludeUsers p of Some ex \<Rightarrow> Object_values ex | None \<Rightarrow> [])"

definition includeUsers_values :: "Props \<Rightarrow> UserProfile list" where
  "includeUsers_values p = (case includeUsers p of Some inc \<Rightarrow> Object_values inc | None \<Rightarrow> [])"

definition spec_exclusion_set :: "Props \<Rightarrow> string set" where
  "spec_exclusion_set p =
     set (map user_id (profilesNotInCurrentTeam p)) \<union> set (map user_id (excludeUsers_values p))"

subsection \<open>The selection\<close>

text \<open>
  The test \<^verbatim>\<open>!this.props.membersInTeam || !this.props.membersInTeam[profile.id]\<close>
  of \<^verbatim>\<open>addValue\<close>. \<^verbatim>\<open>membersInTeam\<close> is a plain object, so the lookup
  finds the own keys, whose membership objects are truthy, and also the properties every
  object inherits from \<^verbatim>\<open>Object.prototype\<close>, which are functions or objects and
  truthy as well.
\<close>

definition Object_prototype_keys :: "string list" where
  "Object_prototype_keys =
     [''constructor'', ''__defineGetter__'', ''__defineSetter__'', ''hasOwnProperty'',
      ''__lookupGetter__'', ''__lookupSetter__'', ''isPrototypeOf'', ''propertyIsEnumerable'',
      ''toString'', ''valueOf'', ''__proto__'', ''toLocaleString'']"

definition notInTeam :: "Props \<Rightarrow> UserProfile \<Rightarrow> bool" where
  "notInTeam p profile =
     (case membersInTeam p of
        None \<Rightarrow> True
      | Some members \<Rightarrow>
          members (user_id profile) = None \<and> user_id profile \<notin> set Object_prototype_keys)"

definition initial_state :: State where
  "initial_state =
     \<lparr>values_st = [], optionValues = [], usersNotInTeam = [], guestsNotInTeam = [],
      term_st = [], show_st = True, saving = False, loadingUsers = True,
      inviteError = None\<rparr>"

text \<open>
  \<^verbatim>\<open>setState\<close> with an updater function queues the updater; when React commits,
  it applies the queued updaters in order, each to the state the one before has left.
\<close>

type_synonym Updater = "State \<Rightarrow> State"

definition apply_updaters :: "Updater list \<Rightarrow> State \<Rightarrow> State" where
  "apply_updaters us s = fold (\<lambda>u st. u st) us s"

text \<open>
  The \<^verbatim>\<open>setState\<close> calls of \<^verbatim>\<open>addValue\<close>. The tests read
  \<^verbatim>\<open>this.state\<close>, the state React has committed last; the updaters append to
  their own argument \<^verbatim>\<open>prevState\<close>.
\<close>

definition addValue_setState ::
  "Imports \<Rightarrow> Props \<Rightarrow> State \<Rightarrow> OptionValue \<Rightarrow> Updater list" where
  "addValue_setState imp p this_state v =
     (case v of
        UserProfileValue profile \<Rightarrow>
          (if notInTeam p profile then
             (if isGuest imp (roles profile) then
                (if profile \<notin> set (guestsNotInTeam this_state)
                 then [\<lambda>prevState.
                         prevState\<lparr>guestsNotInTeam := guestsNotInTeam prevState @ [profile]\<rparr>]
                 else [])
              else
                (if profile \<notin> set (usersNotInTeam this_state)
                 then [\<lambda>prevState.
                         prevState\<lparr>usersNotInTeam := usersNotInTeam prevState @ [profile]\<rparr>]
                 else []))
           else
             (if profile \<notin> set (values_st this_state)
              then [\<lambda>prevState. prevState\<lparr>values_st := values_st prevState @ [profile]\<rparr>]
              else []))
      | GroupValue g \<Rightarrow> [])"

text \<open>
  A call of \<^verbatim>\<open>addValue\<close> made while no state update is pending, and the commit
  that follows it: the state the call reads is the state its updater receives.
\<close>

definition addValue :: "Imports \<Rightarrow> Props \<Rightarrow> State \<Rightarrow> OptionValue \<Rightarrow> State" where
  "addValue imp p s v = apply_updaters (addValue_setState imp p s v) s"

text \<open>
  Calls of \<^verbatim>\<open>addValue\<close> made one after the other before React commits, as in the
  loop of \<^verbatim>\<open>removeInvitedUsers\<close>: every call reads the same
  \<^verbatim>\<open>this.state\<close>, and the commit applies all the queued updaters.
\<close>

definition addValue_batch ::
  "Imports \<Rightarrow> Props \<Rightarrow> State \<Rightarrow> OptionValue list \<Rightarrow> State" where
  "addValue_batch imp p s vs = apply_updaters (concat (map (addValue_setState imp p s) vs)) s"

subsection \<open>Actions, timers and the component instance\<close>

record SearchOptions =
  opt_team_id :: string
  not_in_channel_id :: string
  opt_group_constrained :: bool

record GroupSearchParams =
  q :: string
  filter_allow_reference :: bool
  page :: nat
  per_page :: nat
  include_member_count :: bool
  include_member_ids :: bool

text \<open>The calls the modelled methods make on \<^verbatim>\<open>props.actions\<close> and on the add callback.\<close>

datatype ActionCall =
    addUsersToChannel string "string list"
  | loadStatusesForProfilesList "UserProfile list"
  | searchProfiles string SearchOptions
  | searchAssociatedGroupsForReference string string string GroupSearchParams
  | onAddCallback_call "UserProfile list"

record ErrorValue =
  message :: string

record ActionResult =
  result_error :: "ErrorValue option"

text \<open>
  A pending \<^verbatim>\<open>window.setTimeout\<close> timer: its id, the time at which it is due and
  the term its callback has captured.
\<close>

record Timer =
  timer_id :: nat
  timer_due :: nat
  timer_term :: string

text \<open>
  The component instance in its window: the React state, the instance field
  \<^verbatim>\<open>searchTimeoutId\<close>, the pending timers of the window, the id the next timer
  gets, the clock in milliseconds, and the calls made so far, oldest first.
\<close>

record World =
  state :: State
  searchTimeoutId :: nat
  timers :: "Timer list"
  next_timer_id :: nat
  now :: nat
  calls :: "ActionCall list"

definition initial_world :: World where
  "initial_world =
     \<lparr>state = initial_state, searchTimeoutId = 0, timers = [], next_timer_id = 1,
      now = 0, calls = []\<rparr>"

definition setState :: "(State \<Rightarrow> State) \<Rightarrow> World \<Rightarrow> World" where
  "setState f w = w\<lparr>state := f (state w)\<rparr>"

definition call :: "ActionCall \<Rightarrow> World \<Rightarrow> World" where
  "call c w = w\<lparr>calls := calls w @ [c]\<rparr>"

definition onHide :: "Props \<Rightarrow> World \<Rightarrow> World" where
  "onHide p w =
     call (loadStatusesForProfilesList (profilesInCurrentChannel p))
       (call (loadStatusesForProfilesList (profilesNotInCurrentChannel p))
          (setState (\<lambda>s. s\<lparr>show_st := False\<rparr>) w))"

definition handleInviteError :: "ErrorValue option \<Rightarrow> World \<Rightarrow> World" where
  "handleInviteError err w =
     (case err of
        Some e \<Rightarrow> setState (\<lambda>s. s\<lparr>saving := False, inviteError := Some (message e)\<rparr>) w
      | None \<Rightarrow> w)"

definition setUsersLoadingState :: "bool \<Rightarrow> World \<Rightarrow> World" where
  "setUsersLoadingState loadingState w = setState (\<lambda>s. s\<lparr>loadingUsers := loadingState\<rparr>) w"

text \<open>
  \<^verbatim>\<open>handleSubmit\<close> up to the call of \<^verbatim>\<open>addUsersToChannel\<close>, and the
  callback it passes to \<^verbatim>\<open>then\<close>, which runs when the call resolves.
\<close>

definition handleSubmit :: "Props \<Rightarrow> World \<Rightarrow> World" where
  "handleSubmit p w =
     (let userIds = map user_id (values_st (state w)) in
      if length userIds = 0 then w
      else if skipCommit p \<and> onAddCallback p then
        onHide p
          (setState (\<lambda>s. s\<lparr>saving := False, inviteError := None\<rparr>)
             (call (onAddCallback_call (values_st (state w))) w))
      else
        call (addUsersToChannel (channel_id (channel p)) userIds)
          (setState (\<lambda>s. s\<lparr>saving := True\<rparr>) w))"

definition handleSubmit_then :: "Props \<Rightarrow> ActionResult \<Rightarrow> World \<Rightarrow> World" where
  "handleSubmit_then p result w =
     (case result_error result of
        Some e \<Rightarrow> handleInviteError (Some e) w
      | None \<Rightarrow> onHide p (setState (\<lambda>s. s\<lparr>saving := False, inviteError := None\<rparr>) w))"

subsection \<open>The debounced search\<close>

text \<open>\<^verbatim>\<open>String.prototype.trim\<close> on ASCII text.\<close>

definition isWhiteSpace :: "char \<Rightarrow> bool" where
  "isWhiteSpace c =
     (c = CHR 0x09 \<or> c = CHR 0x0A \<or> c = CHR 0x0B \<or> c = CHR 0x0C \<or> c = CHR 0x0D
        \<or> c = CHR 0x20)"

definition trim :: "string \<Rightarrow> string" where
  "trim str = rev (dropWhile isWhiteSpace (rev (dropWhile isWhiteSpace str)))"

text \<open>
  \<^verbatim>\<open>clearTimeout\<close> drops the pending timer with the given id, if there is one;
  \<^verbatim>\<open>setTimeout\<close> adds a timer due after the delay and returns its id.
\<close>

definition clearTimeout :: "nat \<Rightarrow> World \<Rightarrow> World" where
  "clearTimeout tid w = w\<lparr>timers := filter (\<lambda>tm. timer_id tm \<noteq> tid) (timers w)\<rparr>"

definition setTimeout :: "string \<Rightarrow> nat \<Rightarrow> World \<Rightarrow> nat \<times> World" where
  "setTimeout trm delay w =
     (next_timer_id w,
      w\<lparr>timers := timers w
           @ [\<lparr>timer_id = next_timer_id w, timer_due = now w + delay, timer_term = trm\<rparr>],
        next_timer_id := Suc (next_timer_id w)\<rparr>)"

definition search :: "Imports \<Rightarrow> string \<Rightarrow> World \<Rightarrow> World" where
  "search imp searchTerm w =
     (let trm = trim searchTerm;
          w1 = clearTimeout (searchTimeoutId w) w;
          w2 = setState (\<lambda>s. s\<lparr>term_st := trm\<rparr>) w1;
          (tid, w3) = setTimeout trm (SEARCH_TIMEOUT_MILLISECONDS imp) w2
      in w3\<lparr>searchTimeoutId := tid\<rparr>)"

text \<open>
  The timer callback of \<^verbatim>\<open>search\<close> up to its \<^verbatim>\<open>await\<close>: it dispatches the
  two lookups unless the term is empty. \<open>search_resolved\<close> is the rest of the callback,
  run when both lookups have resolved.
\<close>

definition search_callback :: "Props \<Rightarrow> string \<Rightarrow> World \<Rightarrow> World" where
  "search_callback p trm w =
     (if trm = [] then w
      else
        let options = \<lparr>opt_team_id = team_id (channel p),
                        not_in_channel_id = channel_id (channel p),
                        opt_group_constrained = group_constrained (channel p)\<rparr>;
            opts = \<lparr>q = trm, filter_allow_reference = True, page = 0, per_page = 100,
                     include_member_count = True, include_member_ids = True\<rparr>
        in call (searchAssociatedGroupsForReference trm (team_id (channel p))
                   (channel_id (channel p)) opts)
             (call (searchProfiles trm options) w))"

definition search_resolved :: "World \<Rightarrow> World" where
  "search_resolved w = setUsersLoadingState False w"

text \<open>
  The passage of \<open>d\<close> milliseconds: the timers that have become due run, earliest
  first, and leave the pending list.
\<close>

definition elapse :: "Props \<Rightarrow> nat \<Rightarrow> World \<Rightarrow> World" where
  "elapse p d w =
     (let t = now w + d;
          due = filter (\<lambda>tm. timer_due tm \<le> t) (timers w);
          rest = filter (\<lambda>tm. \<not> timer_due tm \<le> t) (timers w)
      in fold (\<lambda>tm. search_callback p (timer_term tm)) (sort_key timer_due due)
           (w\<lparr>now := t, timers := rest\<rparr>))"

subsection \<open>Sample inputs\<close>

text \<open>
  Imports for the examples: prefix match on the username and on the group name, the
  comparator on the code units of the username or group name, and the guest role.
\<close>

fun compare_strings :: "string \<Rightarrow> string \<Rightarrow> int" where
  "compare_strings [] [] = 0"
| "compare_strings [] (y # ys) = - 1"
| "compare_strings (x # xs) [] = 1"
| "compare_strings (x # xs) (y # ys) =
     (if (of_char x :: nat) < of_char y then - 1
      else if (of_char y :: nat) < of_char x then 1
      else compare_strings xs ys)"

fun sort_string :: "OptionValue \<Rightarrow> string" where
  "sort_string (UserProfileValue u) = username u"
| "sort_string (GroupValue g) = name g"

definition sample_imports :: Imports where
  "sample_imports =
     \<lparr>profileStartsWithTerm = (\<lambda>u t. take (length t) (username u) = t),
      groupMatchesTerm = (\<lambda>g t. take (length t) (name g) = t),
      sortUsersAndGroups = (\<lambda>a b. compare_strings (sort_string a) (sort_string b)),
      isGuest = (\<lambda>r. r = ''system_guest''),
      SEARCH_TIMEOUT_MILLISECONDS = 100\<rparr>"

definition alice :: UserProfile where
  "alice = \<lparr>user_ref = 1, user_id = ''u1'', username = ''alice'', delete_at = 0,
            roles = ''system_user''\<rparr>"

text \<open>A second object for the same user, as a refreshed store holds it.\<close>

definition alice_again :: UserProfile where
  "alice_again = \<lparr>user_ref = 2, user_id = ''u1'', username = ''alice'', delete_at = 0,
                  roles = ''system_user''\<rparr>"

definition bob :: UserProfile where
  "bob = \<lparr>user_ref = 3, user_id = ''u2'', username = ''bob'', delete_at = 0,
          roles = ''system_user''\<rparr>"

definition carol :: UserProfile where
  "carol = \<lparr>user_ref = 4, user_id = ''u3'', username = ''carol'', delete_at = 1700000000000,
            roles = ''system_user''\<rparr>"

definition dave :: UserProfile where
  "dave = \<lparr>user_ref = 5, user_id = ''u4'', username = ''dave'', delete_at = 0,
           roles = ''system_guest''\<rparr>"

definition sample_channel :: Channel where
  "sample_channel = \<lparr>channel_id = ''c1'', team_id = ''t1'', group_constrained = False\<rparr>"

definition sample_membership :: TeamMembership where
  "sample_membership = \<lparr>member_team_id = ''t1'', member_user_id = ''u1''\<rparr>"

text \<open>The props with every pool empty and the default props of the component.\<close>

definition empty_props :: Props where
  "empty_props =
     \<lparr>profilesNotInCurrentChannel = [], profilesInCurrentChannel = [],
      profilesNotInCurrentTeam = [], profilesFromRecentDMs = [],
      membersInTeam = Some Map.empty, channel = sample_channel, skipCommit = False,
      onAddCallback = False, excludeUsers = Some [], includeUsers = Some [],
      groups_prop = []\<rparr>"

text \<open>
  Alice is a recent direct-message contact; Bob and Dave are not in the channel; Dave is
  excluded by the host.
\<close>

definition props_pools :: Props where
  "props_pools =
     empty_props\<lparr>profilesNotInCurrentChannel := [bob, dave],
                 profilesFromRecentDMs := [alice],
                 excludeUsers := Some [(''u4'', dave)]\<rparr>"

text \<open>The two objects for Alice reach the component through different pools.\<close>

definition props_same_id :: Props where
  "props_same_id =
     empty_props\<lparr>profilesNotInCurrentChannel := [alice_again],
                 profilesFromRecentDMs := [alice]\<rparr>"

text \<open>Carol, deactivated, is passed as an include override.\<close>

definition props_include_deleted :: Props where
  "props_include_deleted = empty_props\<lparr>includeUsers := Some [(''u3'', carol)]\<rparr>"

text \<open>Alice is a member of the team.\<close>

definition props_member :: Props where
  "props_member = empty_props\<lparr>membersInTeam := Some [''u1'' \<mapsto> sample_membership]\<rparr>"

text \<open>A second object for Dave.\<close>

definition dave_again :: UserProfile where
  "dave_again = \<lparr>user_ref = 6, user_id = ''u4'', username = ''dave'', delete_at = 0,
                 roles = ''system_guest''\<rparr>"

text \<open>A guest whose id is the name of a property that every object inherits.\<close>

definition eve :: UserProfile where
  "eve = \<lparr>user_ref = 7, user_id = ''constructor'', username = ''eve'', delete_at = 0,
          roles = ''system_guest''\<rparr>"

text \<open>
  The default props (an omitted \<^verbatim>\<open>excludeUsers\<close> is the empty object) with Alice
  listed as not in the team and as not in the channel.
\<close>

definition props_not_in_team :: Props where
  "props_not_in_team =
     empty_props\<lparr>profilesNotInCurrentChannel := [alice],
                 profilesNotInCurrentTeam := [alice]\<rparr>"

text \<open>
  Twelve active users named \<open>a\<close> to \<open>l\<close>. The eleven users \<open>b\<close> to \<open>l\<close> are the
  recent direct-message contacts, in this order; \<open>a\<close> and \<open>l\<close> are not in the channel.
\<close>

definition contact :: "nat \<Rightarrow> string \<Rightarrow> UserProfile" where
  "contact n nm =
     \<lparr>user_ref = n, user_id = ''id-'' @ nm, username = nm, delete_at = 0,
      roles = ''system_user''\<rparr>"

definition contacts_b_to_k :: "UserProfile list" where
  "contacts_b_to_k =
     [contact 11 ''b'', contact 12 ''c'', contact 13 ''d'', contact 14 ''e'', contact 15 ''f'',
      contact 16 ''g'', contact 17 ''h'', contact 18 ''i'', contact 19 ''j'', contact 20 ''k'']"

definition props_eleven_contacts :: Props where
  "props_eleven_contacts =
     empty_props\<lparr>profilesNotInCurrentChannel := [contact 10 ''a'', contact 21 ''l''],
                 profilesFromRecentDMs := contacts_b_to_k @ [contact 21 ''l'']\<rparr>"

text \<open>The mounted component with Alice selected.\<close>

definition world_selected :: World where
  "world_selected = initial_world\<lparr>state := initial_state\<lparr>values_st := [alice]\<rparr>\<rparr>"

definition result_failed :: ActionResult where
  "result_failed = \<lparr>result_error = Some \<lparr>message = ''x''\<rparr>\<rparr>"

text \<open>The mounted component while the timer of a first search for \<open>a\<close> is pending.\<close>

definition world_typing :: World where
  "world_typing = search sample_imports ''a'' initial_world"

subsection \<open>Facts about the built-ins\<close>

lemma set_foldl_Set_add: "set (foldl Set_add acc xs) = set acc \<union> set xs"
  by (induction xs arbitrary: acc) (auto simp: Set_add_def)

lemma distinct_foldl_Set_add: "distinct acc \<Longrightarrow> distinct (foldl Set_add acc xs)"
  by (induction xs arbitrary: acc) (auto simp: Set_add_def)

lemma length_foldl_Set_add: "length (foldl Set_add acc xs) \<le> length acc + length xs"
proof (induction xs arbitrary: acc)
  case Nil
  show ?case by simp
next
  case (Cons x xs)
  have "length (foldl Set_add (Set_add acc x) xs) \<le> length (Set_add acc x) + length xs"
    by (rule Cons.IH)
  also have "length (Set_add acc x) \<le> length acc + 1"
    by (simp add: Set_add_def)
  finally show ?case by simp
qed

lemma set_new_Set: "set (new_Set xs) = set xs"
  by (simp add: new_Set_def set_foldl_Set_add)

lemma distinct_new_Set: "distinct (new_Set xs)"
  by (simp add: new_Set_def distinct_foldl_Set_add)

lemma length_new_Set: "length (new_Set xs) \<le> length xs"
  using length_foldl_Set_add [of "[]" xs] by (simp add: new_Set_def)

lemma new_Set_snoc: "new_Set (xs @ [x]) = Set_add (new_Set xs) x"
  by (simp add: new_Set_def)

text \<open>
  The \<^verbatim>\<open>Set\<close> round trip keeps an entry exactly when it does not occur earlier in
  the list.
\<close>

lemma new_Set_first_occurrences:
  "new_Set xs = map (nth xs) (filter (\<lambda>k. xs ! k \<notin> set (take k xs)) [0..<length xs])"
proof (induction xs rule: rev_induct)
  case Nil
  show ?case by (simp add: new_Set_def)
next
  case (snoc x xs)
  have older: "filter (\<lambda>k. (xs @ [x]) ! k \<notin> set (take k (xs @ [x]))) [0..<length xs]
                 = filter (\<lambda>k. xs ! k \<notin> set (take k xs)) [0..<length xs]"
    by (rule filter_cong) (auto simp: nth_append)
  have same: "map (nth (xs @ [x])) (filter (\<lambda>k. xs ! k \<notin> set (take k xs)) [0..<length xs])
                = map (nth xs) (filter (\<lambda>k. xs ! k \<notin> set (take k xs)) [0..<length xs])"
    by (rule map_cong) (auto simp: nth_append)
  have "map (nth (xs @ [x]))
          (filter (\<lambda>k. (xs @ [x]) ! k \<notin> set (take k (xs @ [x]))) [0..<length (xs @ [x])])
        = new_Set xs @ (if x \<in> set xs then [] else [x])"
    using older same snoc.IH by simp
  also have "\<dots> = new_Set (xs @ [x])"
    by (simp add: new_Set_snoc Set_add_def set_new_Set)
  finally show ?case by simp
qed

subsection \<open>Where an option comes from\<close>

lemma set_sort_insert: "set (sort_insert cmp x ys) = insert x (set ys)"
  by (induction ys) auto

lemma set_Array_sort: "set (Array_sort cmp xs) = set xs"
  unfolding Array_sort_def by (induction xs) (auto simp: set_sort_insert)

lemma foldl_Set_add_split:
  "\<exists>ys. foldl Set_add acc xs = acc @ ys \<and> set ys \<inter> set acc = {}"
proof (induction xs arbitrary: acc)
  case Nil
  show ?case by simp
next
  case (Cons x xs)
  show ?case
  proof (cases "x \<in> set acc")
    case True
    then show ?thesis using Cons.IH [of acc] by (simp add: Set_add_def)
  next
    case False
    obtain ys where ys: "foldl Set_add (acc @ [x]) xs = (acc @ [x]) @ ys"
      "set ys \<inter> set (acc @ [x]) = {}"
      using Cons.IH [of "acc @ [x]"] by blast
    have "foldl Set_add acc (x # xs) = acc @ (x # ys)"
      using False ys(1) by (simp add: Set_add_def)
    moreover have "set (x # ys) \<inter> set acc = {}"
      using False ys(2) by auto
    ultimately show ?thesis by blast
  qed
qed

lemma set_getOptions:
  "set (getOptions imp p s) \<subseteq> set (dmUsers imp p s) \<union> set (groupsAndUsers imp p s)"
proof -
  have "set (getOptions imp p s) = set (take MAX_USERS (dmUsers imp p s @ groupsAndUsers imp p s))"
    unfolding getOptions_def Array_from_def Let_def by (rule set_new_Set)
  also have "\<dots> \<subseteq> set (dmUsers imp p s @ groupsAndUsers imp p s)"
    by (rule set_take_subset)
  finally show ?thesis by simp
qed

lemma filterOut_iff:
  "u \<in> set (filterOutDeletedAndExcludedAndNotInTeamUsers users ids) \<longleftrightarrow>
     u \<in> set users \<and> delete_at u = 0 \<and> user_id u \<notin> set ids"
  by (auto simp: filterOutDeletedAndExcludedAndNotInTeamUsers_def Set_has_def)

lemma user_in_dmUsers:
  assumes "UserProfileValue u \<in> set (dmUsers imp p s)"
  shows "delete_at u = 0 \<and> user_id u \<notin> set (excludedAndNotInTeamUserIds p)"
proof -
  have "u \<in> set (take USERS_FROM_DMS
          (filterOutDeletedAndExcludedAndNotInTeamUsers
             (filterProfilesStartingWithTerm imp (profilesFromRecentDMs p) (term_st s))
             (excludedAndNotInTeamUserIds p)))"
    using assms unfolding dmUsers_def by auto
  then have "u \<in> set (filterOutDeletedAndExcludedAndNotInTeamUsers
             (filterProfilesStartingWithTerm imp (profilesFromRecentDMs p) (term_st s))
             (excludedAndNotInTeamUserIds p))"
    by (rule in_set_takeD)
  then show ?thesis by (simp add: filterOut_iff)
qed

lemma user_in_users_opt:
  assumes "UserProfileValue u \<in> set (users_opt imp p s)"
  shows "u \<in> set (includeUsers_values p)
           \<or> (delete_at u = 0 \<and> user_id u \<notin> set (excludedAndNotInTeamUserIds p))"
  using assms unfolding users_opt_def includeUsers_values_def Let_def
  by (auto simp: filterOut_iff split: option.splits)

lemma user_in_groupsAndUsers:
  assumes "UserProfileValue u \<in> set (groupsAndUsers imp p s)"
  shows "UserProfileValue u \<in> set (users_opt imp p s)"
  using assms unfolding groupsAndUsers_def by (auto simp: set_Array_sort)

lemma user_in_getOptions:
  assumes "UserProfileValue u \<in> set (getOptions imp p s)"
  shows "u \<in> set (includeUsers_values p)
           \<or> (delete_at u = 0 \<and> user_id u \<notin> set (excludedAndNotInTeamUserIds p))"
proof -
  from assms set_getOptions [of imp p s]
  have "UserProfileValue u \<in> set (dmUsers imp p s) \<or> UserProfileValue u \<in> set (groupsAndUsers imp p s)"
    by blast
  then show ?thesis
    using user_in_dmUsers user_in_groupsAndUsers user_in_users_opt by blast
qed

lemma code_set_eq_spec:
  assumes "profilesNotInCurrentTeam p = [] \<or> excludeUsers p = None"
  shows "set (excludedAndNotInTeamUserIds p) = spec_exclusion_set p"
  using assms
  by (auto simp: excludedAndNotInTeamUserIds_def spec_exclusion_set_def excludeUsers_values_def
        set_new_Set split: option.splits)

text \<open>
  With both an exclude map and a non-empty \<^verbatim>\<open>profilesNotInCurrentTeam\<close>, the
  spread makes the first id the only argument the \<^verbatim>\<open>Set\<close> constructor reads:
  the set holds the characters of that id.
\<close>

lemma excluded_ids_first_argument:
  "excludeUsers p = Some ex \<Longrightarrow> profilesNotInCurrentTeam p = u # us \<Longrightarrow>
   excludedAndNotInTeamUserIds p = new_Set (map (\<lambda>c. [c]) (user_id u))"
  by (simp add: excludedAndNotInTeamUserIds_def)

text \<open>
  In that case no id of a length other than one is in the set, whatever the two inputs
  hold.
\<close>

lemma ids_never_excluded:
  assumes "excludeUsers p = Some ex" and "profilesNotInCurrentTeam p = u # us"
    and "length i \<noteq> 1"
  shows "\<not> Set_has (excludedAndNotInTeamUserIds p) i"
  using assms by (auto simp: excludedAndNotInTeamUserIds_def Set_has_def set_new_Set)

lemma length_dmUsers: "length (dmUsers imp p s) \<le> 10"
  by (simp add: dmUsers_def USERS_FROM_DMS_def)

lemma dmUsers_from_pool:
  "set (dmUsers imp p s) \<subseteq> UserProfileValue ` set (profilesFromRecentDMs p)"
proof -
  have "set (dmUsers imp p s) \<subseteq> UserProfileValue `
          set (filterOutDeletedAndExcludedAndNotInTeamUsers
             (filterProfilesStartingWithTerm imp (profilesFromRecentDMs p) (term_st s))
             (excludedAndNotInTeamUserIds p))"
    unfolding dmUsers_def using set_take_subset by fastforce
  then show ?thesis
    by (auto simp: filterOutDeletedAndExcludedAndNotInTeamUsers_def
          filterProfilesStartingWithTerm_def)
qed

lemma getOptions_split:
  "\<exists>front others. getOptions imp p s = front @ others
      \<and> set front = set (dmUsers imp p s) \<and> length front \<le> 10
      \<and> set others \<inter> set (dmUsers imp p s) = {}"
proof -
  let ?dm = "dmUsers imp p s"
  let ?rest = "take (MAX_USERS - length ?dm) (groupsAndUsers imp p s)"
  have "take MAX_USERS (?dm @ groupsAndUsers imp p s) = ?dm @ ?rest"
    using length_dmUsers [of imp p s] by (simp add: MAX_USERS_def)
  then have res: "getOptions imp p s = foldl Set_add (new_Set ?dm) ?rest"
    by (simp add: getOptions_def Array_from_def new_Set_def)
  obtain others where others: "foldl Set_add (new_Set ?dm) ?rest = new_Set ?dm @ others"
    "set others \<inter> set (new_Set ?dm) = {}"
    using foldl_Set_add_split [of "new_Set ?dm" ?rest] by blast
  have "length (new_Set ?dm) \<le> 10"
    using length_new_Set [of ?dm] length_dmUsers [of imp p s] by linarith
  with res others show ?thesis
    by (metis set_new_Set)
qed

text \<open>The option list on the sample pools: Alice from the direct messages, then Bob.\<close>

lemma dmUsers_on_pools:
  "dmUsers sample_imports props_pools initial_state = [UserProfileValue alice]"
  by (simp add: props_pools_def empty_props_def sample_imports_def initial_state_def
        alice_def bob_def dave_def dmUsers_def excludedAndNotInTeamUserIds_def
        filterOutDeletedAndExcludedAndNotInTeamUsers_def filterProfilesStartingWithTerm_def
        new_Set_def Set_add_def Set_has_def Object_values_def USERS_FROM_DMS_def)

lemma getOptions_on_pools:
  "getOptions sample_imports props_pools initial_state
     = [UserProfileValue alice, UserProfileValue bob]"
  by (simp add: props_pools_def empty_props_def sample_imports_def initial_state_def
        alice_def bob_def dave_def getOptions_def dmUsers_def groupsAndUsers_def users_opt_def
        excludedAndNotInTeamUserIds_def filterOutDeletedAndExcludedAndNotInTeamUsers_def
        filterProfilesStartingWithTerm_def filterGroupsMatchingTerm_def Array_sort_def
        Array_from_def new_Set_def Set_add_def Set_has_def Object_values_def
        USERS_FROM_DMS_def MAX_USERS_def)

text \<open>The option list on the eleven contacts: \<open>b\<close> to \<open>k\<close>, then \<open>a\<close> and \<open>l\<close>.\<close>

lemma getOptions_on_eleven_contacts:
  "getOptions sample_imports props_eleven_contacts initial_state
     = map UserProfileValue (contacts_b_to_k @ [contact 10 ''a'', contact 21 ''l''])"
  by (simp add: props_eleven_contacts_def contacts_b_to_k_def contact_def empty_props_def
        sample_imports_def initial_state_def
        getOptions_def dmUsers_def groupsAndUsers_def users_opt_def
        excludedAndNotInTeamUserIds_def filterOutDeletedAndExcludedAndNotInTeamUsers_def
        filterProfilesStartingWithTerm_def filterGroupsMatchingTerm_def Array_sort_def
        Array_from_def new_Set_def Set_add_def Set_has_def Object_values_def
        USERS_FROM_DMS_def MAX_USERS_def)

lemma trim_al: "trim ''al'' = ''al''"
  by (simp add: trim_def isWhiteSpace_def)

lemma trim_ali: "trim ''ali'' = ''ali''"
  by (simp add: trim_def isWhiteSpace_def)

lemma own_timers_cleared:
  assumes "list_all (\<lambda>tm. timer_id tm = searchTimeoutId w) (timers w)"
  shows "filter (\<lambda>tm. timer_id tm \<noteq> searchTimeoutId w) (timers w) = []"
  using assms by (simp add: filter_empty_conv list_all_iff)

subsection \<open>Exclusion\<close>

text \<open>
  C1. No option that \<^verbatim>\<open>getOptions\<close> returns should have an id in the exclusion
  set, the ids of \<^verbatim>\<open>profilesNotInCurrentTeam\<close> together with the ids of
  \<^verbatim>\<open>excludeUsers\<close>. The code does not keep to it: with the default props, where
  \<^verbatim>\<open>excludeUsers\<close> is the empty object, and Alice both not in the team and not in
  the channel, the set that \<^verbatim>\<open>getOptions\<close> builds holds the two characters of
  her id, and Alice is returned although her id is in the exclusion set.
\<close>

theorem getOptions_returns_not_in_team:
  "excludeUsers props_not_in_team = Some []
   \<and> profilesNotInCurrentTeam props_not_in_team = [alice]
   \<and> excludedAndNotInTeamUserIds props_not_in_team = [''u'', ''1'']
   \<and> getOptions sample_imports props_not_in_team initial_state = [UserProfileValue alice]
   \<and> value_id (UserProfileValue alice) \<in> spec_exclusion_set props_not_in_team"
  by (simp add: props_not_in_team_def empty_props_def sample_imports_def initial_state_def
        alice_def spec_exclusion_set_def excludeUsers_values_def
        getOptions_def dmUsers_def groupsAndUsers_def users_opt_def
        excludedAndNotInTeamUserIds_def filterOutDeletedAndExcludedAndNotInTeamUsers_def
        filterProfilesStartingWithTerm_def filterGroupsMatchingTerm_def Array_sort_def
        Array_from_def new_Set_def Set_add_def Set_has_def Object_values_def
        USERS_FROM_DMS_def MAX_USERS_def)

subsection \<open>Duplicates\<close>

text \<open>
  C2, as amended. The list that \<^verbatim>\<open>getOptions\<close> returns holds no object twice,
  and it is the sliced list \<^verbatim>\<open>optionValues\<close> without the entries that occur
  earlier in that list: of an object that is repeated, the first occurrence stays. The
  comparison is by reference, so two different objects with the same id both stay.
\<close>

theorem getOptions_distinct:
  "distinct (getOptions imp p s)
   \<and> getOptions imp p s
       = map (nth (optionValues_sliced imp p s))
           (filter (\<lambda>k. optionValues_sliced imp p s ! k
                          \<notin> set (take k (optionValues_sliced imp p s)))
              [0..<length (optionValues_sliced imp p s)])"
proof -
  have "getOptions imp p s = new_Set (optionValues_sliced imp p s)"
    by (simp add: getOptions_def optionValues_sliced_def Array_from_def)
  then show ?thesis
    using distinct_new_Set [of "optionValues_sliced imp p s"]
      new_Set_first_occurrences [of "optionValues_sliced imp p s"]
    by simp
qed

text \<open>
  Two objects for the same user, one from the recent direct messages and one from the
  profiles not in the channel, are both returned: the ids of the result repeat.
\<close>

theorem getOptions_distinct_counterexample:
  "getOptions sample_imports props_same_id initial_state
     = [UserProfileValue alice, UserProfileValue alice_again]
   \<and> value_id (UserProfileValue alice) = value_id (UserProfileValue alice_again)
   \<and> \<not> distinct (map value_id (getOptions sample_imports props_same_id initial_state))"
  by (simp add: props_same_id_def empty_props_def sample_imports_def initial_state_def
        alice_def alice_again_def
        getOptions_def dmUsers_def groupsAndUsers_def users_opt_def
        excludedAndNotInTeamUserIds_def filterOutDeletedAndExcludedAndNotInTeamUsers_def
        filterProfilesStartingWithTerm_def filterGroupsMatchingTerm_def Array_sort_def
        Array_from_def new_Set_def Set_add_def Set_has_def Object_values_def
        USERS_FROM_DMS_def MAX_USERS_def)

subsection \<open>Deactivated users\<close>

text \<open>
  C3, as amended. Every Person that \<^verbatim>\<open>getOptions\<close> returns has
  \<^verbatim>\<open>delete_at\<close> equal to 0 or is an \<^verbatim>\<open>includeUsers\<close> override: the
  profiles of the primary pool and of the recent direct messages are filtered, the
  overrides are appended unfiltered.
\<close>

theorem getOptions_active:
  assumes "UserProfileValue u \<in> set (getOptions imp p s)"
  shows "delete_at u = 0 \<or> u \<in> set (includeUsers_values p)"
  using user_in_getOptions [OF assms] by blast

text \<open>Alice, active, is returned on the sample pools.\<close>

theorem getOptions_active_witness:
  "UserProfileValue alice \<in> set (getOptions sample_imports props_pools initial_state)
   \<and> (delete_at alice = 0 \<or> alice \<in> set (includeUsers_values props_pools))"
  using getOptions_active [of alice sample_imports props_pools initial_state]
  by (simp add: getOptions_on_pools alice_def)

text \<open>A deactivated Person passed as an include override is returned.\<close>

theorem getOptions_active_counterexample:
  "getOptions sample_imports props_include_deleted initial_state = [UserProfileValue carol]
   \<and> delete_at carol \<noteq> 0"
  by (simp add: props_include_deleted_def empty_props_def sample_imports_def initial_state_def
        carol_def
        getOptions_def dmUsers_def groupsAndUsers_def users_opt_def
        excludedAndNotInTeamUserIds_def filterOutDeletedAndExcludedAndNotInTeamUsers_def
        filterProfilesStartingWithTerm_def filterGroupsMatchingTerm_def Array_sort_def
        Array_from_def new_Set_def Set_add_def Set_has_def Object_values_def
        USERS_FROM_DMS_def MAX_USERS_def)

subsection \<open>Recent direct messages first\<close>

text \<open>
  C4, as amended. The entries of \<^verbatim>\<open>dmUsers\<close>, the first 10
  (\<^verbatim>\<open>USERS_FROM_DMS\<close>) profiles of \<^verbatim>\<open>profilesFromRecentDMs\<close> that pass the
  filters, are all in the result of \<^verbatim>\<open>getOptions\<close>, number at most 10 there,
  and each of them stands before every option that is not one of them. A profile of
  \<^verbatim>\<open>profilesFromRecentDMs\<close> beyond these ten has no such place: it can come in
  through the primary pool, sorted among the other options.
\<close>

theorem getOptions_recent_first:
  "set (dmUsers imp p s) \<subseteq> UserProfileValue ` set (profilesFromRecentDMs p)
   \<and> set (dmUsers imp p s) \<subseteq> set (getOptions imp p s)
   \<and> length (filter (\<lambda>v. v \<in> set (dmUsers imp p s)) (getOptions imp p s)) \<le> 10
   \<and> (i < length (getOptions imp p s) \<and> j < length (getOptions imp p s)
        \<and> getOptions imp p s ! i \<in> set (dmUsers imp p s)
        \<and> getOptions imp p s ! j \<notin> set (dmUsers imp p s)
      \<longrightarrow> i < j)"
proof -
  obtain front others where split: "getOptions imp p s = front @ others"
    and front: "set front = set (dmUsers imp p s)" and len: "length front \<le> 10"
    and others: "set others \<inter> set (dmUsers imp p s) = {}"
    using getOptions_split [of imp p s] by blast
  have present: "set (dmUsers imp p s) \<subseteq> set (getOptions imp p s)"
    using split front by auto
  have "filter (\<lambda>v. v \<in> set (dmUsers imp p s)) front = front"
    using front by (simp add: filter_id_conv)
  moreover have "filter (\<lambda>v. v \<in> set (dmUsers imp p s)) others = []"
    using others by (auto simp: filter_empty_conv)
  ultimately have count:
    "length (filter (\<lambda>v. v \<in> set (dmUsers imp p s)) (getOptions imp p s)) \<le> 10"
    using split len by simp
  have order: "i < j"
    if i: "i < length (getOptions imp p s)" and j: "j < length (getOptions imp p s)"
      and ri: "getOptions imp p s ! i \<in> set (dmUsers imp p s)"
      and rj: "getOptions imp p s ! j \<notin> set (dmUsers imp p s)"
  proof -
    have "i < length front"
    proof (rule ccontr)
      assume "\<not> i < length front"
      then have "(front @ others) ! i = others ! (i - length front)"
        and "i - length front < length others"
        using i split by (auto simp: nth_append)
      then have "(front @ others) ! i \<in> set others" by simp
      then show False using ri others split by auto
    qed
    moreover have "\<not> j < length front"
    proof
      assume "j < length front"
      then have "(front @ others) ! j \<in> set front" by (simp add: nth_append)
      then show False using rj front split by simp
    qed
    ultimately show ?thesis by simp
  qed
  from dmUsers_from_pool [of imp p s] present count order show ?thesis by blast
qed

text \<open>On the sample pools Alice, from the direct messages, stands before Bob.\<close>

theorem getOptions_recent_first_witness:
  "dmUsers sample_imports props_pools initial_state = [UserProfileValue alice]
   \<and> length (filter (\<lambda>v. v \<in> set (dmUsers sample_imports props_pools initial_state))
             (getOptions sample_imports props_pools initial_state)) \<le> 10
   \<and> 0 < length (getOptions sample_imports props_pools initial_state)
   \<and> 1 < length (getOptions sample_imports props_pools initial_state)
   \<and> getOptions sample_imports props_pools initial_state ! 0
        \<in> set (dmUsers sample_imports props_pools initial_state)
   \<and> getOptions sample_imports props_pools initial_state ! 1
        \<notin> set (dmUsers sample_imports props_pools initial_state)
   \<and> (0::nat) < 1"
  using getOptions_recent_first [of sample_imports props_pools initial_state 0 1]
  by (simp add: getOptions_on_pools dmUsers_on_pools alice_def bob_def)

text \<open>
  With eleven recent contacts, of whom the last is also not in the channel, all eleven
  are returned, and \<open>a\<close>, who is not a recent contact, stands before the eleventh.
\<close>

theorem getOptions_recent_first_counterexample:
  "profilesFromRecentDMs props_eleven_contacts = contacts_b_to_k @ [contact 21 ''l'']
   \<and> length (profilesFromRecentDMs props_eleven_contacts) = 11
   \<and> distinct (profilesFromRecentDMs props_eleven_contacts)
   \<and> set (map UserProfileValue (profilesFromRecentDMs props_eleven_contacts))
        \<subseteq> set (getOptions sample_imports props_eleven_contacts initial_state)
   \<and> getOptions sample_imports props_eleven_contacts initial_state ! 10
        = UserProfileValue (contact 10 ''a'')
   \<and> contact 10 ''a'' \<notin> set (profilesFromRecentDMs props_eleven_contacts)
   \<and> getOptions sample_imports props_eleven_contacts initial_state ! 11
        = UserProfileValue (contact 21 ''l'')
   \<and> contact 21 ''l'' \<in> set (profilesFromRecentDMs props_eleven_contacts)"
proof -
  have pool: "profilesFromRecentDMs props_eleven_contacts = contacts_b_to_k @ [contact 21 ''l'']"
    by (simp add: props_eleven_contacts_def empty_props_def)
  show ?thesis
    unfolding getOptions_on_eleven_contacts pool
    by (simp add: contacts_b_to_k_def contact_def)
qed

subsection \<open>The cap\<close>

text \<open>
  C5. For every input, the list that \<^verbatim>\<open>getOptions\<close> returns has at most 25
  (\<^verbatim>\<open>MAX_USERS\<close>) entries.
\<close>

theorem getOptions_length_le_25: "length (getOptions imp p s) \<le> 25"
proof -
  have "length (getOptions imp p s)
          \<le> length (take MAX_USERS (dmUsers imp p s @ groupsAndUsers imp p s))"
    unfolding getOptions_def Array_from_def Let_def by (rule length_new_Set)
  also have "\<dots> \<le> 25"
    unfolding MAX_USERS_def by (simp del: take_append)
  finally show ?thesis .
qed

subsection \<open>A failed commit\<close>

text \<open>
  C6. When \<^verbatim>\<open>handleSubmit\<close> runs with a non-empty selection and
  \<^verbatim>\<open>skipCommit\<close> false, it calls \<^verbatim>\<open>addUsersToChannel\<close> with the selected
  ids; when that call resolves with an error of message \<open>m\<close>, the state has
  \<^verbatim>\<open>saving\<close> false and \<^verbatim>\<open>inviteError\<close> equal to \<open>m\<close>, and the selected
  values and \<^verbatim>\<open>show\<close> are as before the submit, so an open modal stays open.
\<close>

theorem handleSubmit_commit_error:
  assumes "values_st (state w) \<noteq> []"
    and "\<not> skipCommit p"
    and "result_error result = Some e"
  shows "saving (state (handleSubmit_then p result (handleSubmit p w))) = False
       \<and> inviteError (state (handleSubmit_then p result (handleSubmit p w))) = Some (message e)
       \<and> values_st (state (handleSubmit_then p result (handleSubmit p w))) = values_st (state w)
       \<and> show_st (state (handleSubmit_then p result (handleSubmit p w))) = show_st (state w)
       \<and> calls (handleSubmit_then p result (handleSubmit p w))
           = calls w @ [addUsersToChannel (channel_id (channel p))
                          (map user_id (values_st (state w)))]"
  using assms
  by (simp add: handleSubmit_def handleSubmit_then_def handleInviteError_def setState_def
        call_def Let_def)

text \<open>The mounted component with Alice selected, and a commit that fails with \<open>x\<close>.\<close>

theorem handleSubmit_commit_error_witness:
  "values_st (state world_selected) \<noteq> []
   \<and> \<not> skipCommit empty_props
   \<and> result_error result_failed = Some \<lparr>message = ''x''\<rparr>
   \<and> saving (state (handleSubmit_then empty_props result_failed
                      (handleSubmit empty_props world_selected))) = False
   \<and> inviteError (state (handleSubmit_then empty_props result_failed
                      (handleSubmit empty_props world_selected))) = Some ''x''
   \<and> values_st (state (handleSubmit_then empty_props result_failed
                      (handleSubmit empty_props world_selected))) = [alice]
   \<and> show_st (state (handleSubmit_then empty_props result_failed
                      (handleSubmit empty_props world_selected)))"
  using handleSubmit_commit_error
    [of world_selected empty_props result_failed "\<lparr>message = ''x''\<rparr>"]
  by (simp add: world_selected_def initial_world_def initial_state_def empty_props_def
        result_failed_def alice_def)

subsection \<open>Adding a team member twice\<close>

text \<open>
  C7, as amended. For a Person object whose id is a key of \<^verbatim>\<open>membersInTeam\<close>
  and that the selected values hold at most once: two calls of \<^verbatim>\<open>addValue\<close>
  with that same object, each made while no state update is pending, so that React
  commits between them, leave the object in the selected values exactly once; the second
  call queues no update and changes nothing. The comparison is by reference, not by id.
\<close>

theorem addValue_twice_once:
  assumes "membersInTeam p = Some members"
    and "members (user_id u) \<noteq> None"
    and "count_list (values_st s) u \<le> 1"
  shows "count_list (values_st (addValue imp p (addValue imp p s (UserProfileValue u))
                                  (UserProfileValue u))) u = 1
         \<and> addValue_setState imp p (addValue imp p s (UserProfileValue u))
               (UserProfileValue u) = []
         \<and> addValue imp p (addValue imp p s (UserProfileValue u)) (UserProfileValue u)
             = addValue imp p s (UserProfileValue u)"
proof -
  have member: "\<not> notInTeam p u"
    using assms(1,2) by (simp add: notInTeam_def)
  show ?thesis
  proof (cases "u \<in> set (values_st s)")
    case True
    then have "count_list (values_st s) u \<noteq> 0"
      by (simp add: count_list_0_iff)
    with assms(3) have "count_list (values_st s) u = 1" by linarith
    with True member show ?thesis
      by (simp add: addValue_def addValue_setState_def apply_updaters_def)
  next
    case False
    then have "count_list (values_st s) u = 0"
      by (simp add: count_list_0_iff)
    with False member show ?thesis
      by (simp add: addValue_def addValue_setState_def apply_updaters_def)
  qed
qed

text \<open>Alice, a team member, added twice to the empty selection.\<close>

theorem addValue_twice_once_witness:
  "membersInTeam props_member = Some [''u1'' \<mapsto> sample_membership]
   \<and> [''u1'' \<mapsto> sample_membership] (user_id alice) \<noteq> None
   \<and> count_list (values_st initial_state) alice \<le> 1
   \<and> values_st (addValue sample_imports props_member
                  (addValue sample_imports props_member initial_state (UserProfileValue alice))
                  (UserProfileValue alice)) = [alice]
   \<and> count_list (values_st (addValue sample_imports props_member
                  (addValue sample_imports props_member initial_state (UserProfileValue alice))
                  (UserProfileValue alice))) alice = 1"
  using addValue_twice_once
    [of props_member "[''u1'' \<mapsto> sample_membership]" alice initial_state sample_imports]
  by (simp add: props_member_def empty_props_def initial_state_def alice_def addValue_def
        addValue_setState_def apply_updaters_def notInTeam_def Object_prototype_keys_def)

text \<open>
  A second object with the id of an object already selected is appended, so the selected
  values hold the id twice. Two calls with the same object before React commits both
  pass the test on \<^verbatim>\<open>this.state\<close> and both append. From the state this leaves,
  with the object selected twice, two further calls leave it selected twice.
\<close>

theorem addValue_twice_once_counterexample:
  "membersInTeam props_member = Some [''u1'' \<mapsto> sample_membership]
   \<and> user_id alice = ''u1'' \<and> user_id alice_again = ''u1''
   \<and> map user_id (values_st (addValue sample_imports props_member
                  (addValue sample_imports props_member initial_state (UserProfileValue alice))
                  (UserProfileValue alice_again))) = [''u1'', ''u1'']
   \<and> values_st (addValue_batch sample_imports props_member initial_state
                  [UserProfileValue alice, UserProfileValue alice]) = [alice, alice]
   \<and> values_st (addValue sample_imports props_member
                  (addValue sample_imports props_member
                     (addValue_batch sample_imports props_member initial_state
                        [UserProfileValue alice, UserProfileValue alice])
                     (UserProfileValue alice))
                  (UserProfileValue alice)) = [alice, alice]"
  by (simp add: props_member_def empty_props_def initial_state_def alice_def alice_again_def
        addValue_def addValue_batch_def addValue_setState_def apply_updaters_def notInTeam_def
        Object_prototype_keys_def)

subsection \<open>Adding a Person who is not in the team\<close>

text \<open>
  C8, as amended. For a Person object for which the lookup
  \<^verbatim>\<open>membersInTeam[profile.id]\<close> finds nothing (the id is neither a key of
  \<^verbatim>\<open>membersInTeam\<close> nor the name of a property inherited from
  \<^verbatim>\<open>Object.prototype\<close>, or \<^verbatim>\<open>membersInTeam\<close> is missing), and for a call of
  \<^verbatim>\<open>addValue\<close> made while no state update is pending: if the roles mark a guest,
  the call appends the object to \<^verbatim>\<open>guestsNotInTeam\<close> unless that same object is
  there already, and changes nothing else, so the selected values and
  \<^verbatim>\<open>usersNotInTeam\<close> stay as they are; otherwise it appends the object to
  \<^verbatim>\<open>usersNotInTeam\<close> unless that same object is there already, and changes
  nothing else, so the selected values stay as they are.
\<close>

theorem addValue_not_in_team:
  assumes "notInTeam p u"
  shows "(isGuest imp (roles u) \<longrightarrow>
            u \<in> set (guestsNotInTeam (addValue imp p s (UserProfileValue u)))
            \<and> addValue imp p s (UserProfileValue u)
                = s\<lparr>guestsNotInTeam :=
                      (if u \<in> set (guestsNotInTeam s) then guestsNotInTeam s
                       else guestsNotInTeam s @ [u])\<rparr>
            \<and> values_st (addValue imp p s (UserProfileValue u)) = values_st s
            \<and> usersNotInTeam (addValue imp p s (UserProfileValue u)) = usersNotInTeam s)
       \<and> (\<not> isGuest imp (roles u) \<longrightarrow>
            u \<in> set (usersNotInTeam (addValue imp p s (UserProfileValue u)))
            \<and> addValue imp p s (UserProfileValue u)
                = s\<lparr>usersNotInTeam :=
                      (if u \<in> set (usersNotInTeam s) then usersNotInTeam s
                       else usersNotInTeam s @ [u])\<rparr>
            \<and> values_st (addValue imp p s (UserProfileValue u)) = values_st s)"
  using assms by (simp add: addValue_def addValue_setState_def apply_updaters_def)

text \<open>Dave, a guest, and Bob, not a guest, neither in the team.\<close>

theorem addValue_not_in_team_witness:
  "notInTeam empty_props dave
   \<and> isGuest sample_imports (roles dave)
   \<and> addValue sample_imports empty_props initial_state (UserProfileValue dave)
       = initial_state\<lparr>guestsNotInTeam := [dave]\<rparr>
   \<and> notInTeam empty_props bob
   \<and> \<not> isGuest sample_imports (roles bob)
   \<and> addValue sample_imports empty_props initial_state (UserProfileValue bob)
       = initial_state\<lparr>usersNotInTeam := [bob]\<rparr>"
  using addValue_not_in_team [of empty_props dave sample_imports initial_state]
    addValue_not_in_team [of empty_props bob sample_imports initial_state]
  by (simp add: empty_props_def sample_imports_def initial_state_def bob_def dave_def
        notInTeam_def Object_prototype_keys_def)

text \<open>
  Eve, a guest who is in no team and whose id is \<open>constructor\<close>, goes to the selected
  values. A second object for Dave is appended to the guests although Dave is there. Two
  calls with Dave before React commits append him twice.
\<close>

theorem addValue_not_in_team_counterexample:
  "membersInTeam empty_props = Some Map.empty
   \<and> isGuest sample_imports (roles eve)
   \<and> addValue sample_imports empty_props initial_state (UserProfileValue eve)
       = initial_state\<lparr>values_st := [eve]\<rparr>
   \<and> isGuest sample_imports (roles dave)
   \<and> user_id dave_again = user_id dave
   \<and> guestsNotInTeam (addValue sample_imports empty_props
        (addValue sample_imports empty_props initial_state (UserProfileValue dave))
        (UserProfileValue dave_again)) = [dave, dave_again]
   \<and> guestsNotInTeam (addValue_batch sample_imports empty_props initial_state
        [UserProfileValue dave, UserProfileValue dave]) = [dave, dave]"
  by (simp add: empty_props_def sample_imports_def initial_state_def dave_def dave_again_def
        eve_def addValue_def addValue_batch_def addValue_setState_def apply_updaters_def
        notInTeam_def Object_prototype_keys_def)

subsection \<open>The debounce\<close>

text \<open>
  C9. The pending timers are the component's own (each has the id in
  \<^verbatim>\<open>searchTimeoutId\<close>). When \<^verbatim>\<open>search\<close> is called with \<open>al\<close> and, before
  the delay \<^verbatim>\<open>SEARCH_TIMEOUT_MILLISECONDS\<close> has passed, with \<open>ali\<close>, then once the
  delay has passed after the second call exactly one \<^verbatim>\<open>searchProfiles\<close> and
  one \<^verbatim>\<open>searchAssociatedGroupsForReference\<close> have been dispatched, both with
  \<open>ali\<close>; after the second call the only pending timer is the one for \<open>ali\<close>.
\<close>

theorem search_debounced:
  assumes "list_all (\<lambda>tm. timer_id tm = searchTimeoutId w) (timers w)"
    and "d1 < SEARCH_TIMEOUT_MILLISECONDS imp"
    and "SEARCH_TIMEOUT_MILLISECONDS imp \<le> d2"
  shows "calls (elapse p d2 (search imp ''ali'' (elapse p d1 (search imp ''al'' w))))
           = calls w
               @ [searchProfiles ''ali''
                    \<lparr>opt_team_id = team_id (channel p),
                     not_in_channel_id = channel_id (channel p),
                     opt_group_constrained = group_constrained (channel p)\<rparr>,
                  searchAssociatedGroupsForReference ''ali'' (team_id (channel p))
                    (channel_id (channel p))
                    \<lparr>q = ''ali'', filter_allow_reference = True, page = 0, per_page = 100,
                     include_member_count = True, include_member_ids = True\<rparr>]
         \<and> map timer_term (timers (search imp ''ali'' (elapse p d1 (search imp ''al'' w))))
             = [''ali'']"
proof -
  let ?delay = "SEARCH_TIMEOUT_MILLISECONDS imp"
  have w1: "search imp ''al'' w
      = w\<lparr>state := (state w)\<lparr>term_st := ''al''\<rparr>,
           timers := [\<lparr>timer_id = next_timer_id w, timer_due = now w + ?delay,
                       timer_term = ''al''\<rparr>],
           next_timer_id := Suc (next_timer_id w),
           searchTimeoutId := next_timer_id w\<rparr>"
    using own_timers_cleared [OF assms(1)]
    by (simp add: search_def clearTimeout_def setTimeout_def setState_def trim_al Let_def)
  have w2: "elapse p d1 (search imp ''al'' w) = (search imp ''al'' w)\<lparr>now := now w + d1\<rparr>"
    using assms(2) by (simp add: w1 elapse_def Let_def)
  have w3: "search imp ''ali'' (elapse p d1 (search imp ''al'' w))
      = w\<lparr>state := (state w)\<lparr>term_st := ''ali''\<rparr>,
           timers := [\<lparr>timer_id = Suc (next_timer_id w), timer_due = now w + d1 + ?delay,
                       timer_term = ''ali''\<rparr>],
           next_timer_id := Suc (Suc (next_timer_id w)),
           searchTimeoutId := Suc (next_timer_id w),
           now := now w + d1\<rparr>"
    unfolding w2 unfolding w1
    by (simp add: search_def clearTimeout_def setTimeout_def setState_def trim_ali Let_def)
  show ?thesis
    unfolding w3 using assms(3) by (simp add: elapse_def search_callback_def call_def Let_def)
qed

text \<open>
  The two searches 50 ms apart while the timer of an earlier search is pending, with a
  delay of 100 ms.
\<close>

theorem search_debounced_witness:
  "map timer_id (timers world_typing) = [1]
   \<and> searchTimeoutId world_typing = 1
   \<and> list_all (\<lambda>tm. timer_id tm = searchTimeoutId world_typing) (timers world_typing)
   \<and> (50::nat) < SEARCH_TIMEOUT_MILLISECONDS sample_imports
   \<and> SEARCH_TIMEOUT_MILLISECONDS sample_imports \<le> (100::nat)
   \<and> calls world_typing = []
   \<and> calls (elapse empty_props 100 (search sample_imports ''ali''
              (elapse empty_props 50 (search sample_imports ''al'' world_typing))))
       = [searchProfiles ''ali''
            \<lparr>opt_team_id = ''t1'', not_in_channel_id = ''c1'', opt_group_constrained = False\<rparr>,
          searchAssociatedGroupsForReference ''ali'' ''t1'' ''c1''
            \<lparr>q = ''ali'', filter_allow_reference = True, page = 0, per_page = 100,
             include_member_count = True, include_member_ids = True\<rparr>]"
proof -
  have typing: "world_typing
      = initial_world\<lparr>state := initial_state\<lparr>term_st := ''a''\<rparr>,
          timers := [\<lparr>timer_id = 1, timer_due = 100, timer_term = ''a''\<rparr>],
          next_timer_id := 2, searchTimeoutId := 1\<rparr>"
    by (simp add: world_typing_def initial_world_def initial_state_def sample_imports_def
          search_def clearTimeout_def setTimeout_def setState_def
          trim_def isWhiteSpace_def Let_def)
  have own: "list_all (\<lambda>tm. timer_id tm = searchTimeoutId world_typing) (timers world_typing)"
    unfolding typing by simp
  show ?thesis
    using own search_debounced [OF own, of 50 sample_imports 100 empty_props]
    by (simp add: typing sample_imports_def empty_props_def sample_channel_def
          initial_world_def)
qed

subsection \<open>Adding a group\<close>

text \<open>
  C10. \<^verbatim>\<open>addValue\<close> with a Group calls no \<^verbatim>\<open>setState\<close> and leaves the
  state as it is, every field of it, for every Group and every state.
\<close>

theorem addValue_group_noop:
  "addValue_setState imp p s (GroupValue g) = [] \<and> addValue imp p s (GroupValue g) = s"
  by (simp add: addValue_def addValue_setState_def apply_updaters_def)

end
